theory Spec2Isabelle
  imports Complex_Main
begin

section \<open>Alignment helpers (buffer.ts, upperMultipleOf / lowerMultipleOf)\<close>

text \<open>
  Byte offsets and sizes are JavaScript numbers holding integers; they are modelled as
  \<^typ>\<open>int\<close>. For integers, \<open>Math.floor(value / n)\<close> is the flooring quotient, which is
  \<open>div\<close> on \<^typ>\<open>int\<close>, and \<open>Math.ceil(value / n)\<close> is the negated flooring quotient of the
  negated value. The lemmas \<open>lowerMultipleOf_floor\<close> and \<open>upperMultipleOf_ceiling\<close> below
  relate both definitions to the real-valued quotient the source writes.
\<close>

definition upperMultipleOf :: "int \<Rightarrow> int \<Rightarrow> int" where
  "upperMultipleOf n v = (- ((- v) div n)) * n"

definition lowerMultipleOf :: "int \<Rightarrow> int \<Rightarrow> int" where
  "lowerMultipleOf n v = (v div n) * n"

section \<open>The hardware boundary\<close>

text \<open>
  The WebGPU objects are external. A \<open>GPUBuffer\<close> is known to the code by its label and
  its size; every call the code makes on the device, its queue or a buffer is appended to
  a log, so that "which hardware calls were issued, and in which order" is a value.
\<close>

record GPUBuffer =
  label :: string
  bufSize :: int

datatype hw_call =
    CreateBuffer string int
  | DestroyBuffer string
  | WriteBuffer string int int int
  | CopyBufferToBuffer string int string int int
  | MapAsync string int int
  | Unmap string

text \<open>
  \<open>CreateBuffer l n\<close> is \<open>device.createBuffer({label: l, size: n, ...})\<close> and
  \<open>DestroyBuffer b\<close> is \<open>b.destroy()\<close>;
  \<open>WriteBuffer b bufferOffset dataOffset size\<close> is
  \<open>queue.writeBuffer(b, bufferOffset, data.buffer, dataOffset, size)\<close>;
  \<open>CopyBufferToBuffer src srcOffset dst dstOffset size\<close> is the command enqueued by
  \<open>device.enqueueCommand\<close>; \<open>MapAsync b offset size\<close> is \<open>b.mapAsync(mode, offset, size)\<close>
  and \<open>Unmap b\<close> is \<open>b.unmap()\<close>. Reading a mapped range (\<open>getMappedRange\<close>) is not
  logged; it is modelled on the state of the mapping, in the section on the mapper.
\<close>

datatype error = Error string

text \<open>
  An operation runs against the log of hardware calls and either throws (or rejects its
  promise), \<open>Inl\<close>, or completes, \<open>Inr\<close>; the log is returned in both cases.
\<close>

type_synonym 'a result = "(error + 'a) \<times> hw_call list"

text \<open>
  \<open>DataSegment\<close> is \<open>{offset?: number, size?: number}\<close>; its fields are prefixed because
  \<open>offset\<close> and \<open>size\<close> are also the names of local variables of the source.
\<close>

record DataSegment =
  segOffset :: "int option"
  segSize :: "int option"

record DataView =
  byteOffset :: int
  byteLength :: int

definition orElse :: "'a option \<Rightarrow> 'a \<Rightarrow> 'a" where
  "orElse v d = (case v of Some x \<Rightarrow> x | None \<Rightarrow> d)"

section \<open>DataBuffer.set(...).fromData and copy\<close>

text \<open>
  \<open>DataBuffer_set\<close> is \<open>DataBuffer.set(bufferSegment).fromData(data, dataOffset)\<close> against
  a queue that takes every write handed to it: the function has no \<open>throw\<close> of its own,
  and its last statement is the call of \<open>queue.writeBuffer\<close>. \<open>DataBuffer_set_fromData\<close>
  is the same function against a queue whose verdict on a call is a parameter, \<open>None\<close>
  when it takes the write and \<open>Some e\<close> when it throws \<open>e\<close>; the \<open>async\<close> function then
  rejects with \<open>e\<close>. The call is logged in both cases: it has been made.
\<close>

definition DataBuffer_set ::
  "GPUBuffer \<Rightarrow> DataSegment \<Rightarrow> DataView \<Rightarrow> int \<Rightarrow> hw_call list \<Rightarrow> unit result" where
  "DataBuffer_set this bufferSegment data dataOffset queue =
    (let bufferOffset = orElse (segOffset bufferSegment) 0;
         size = orElse (segSize bufferSegment)
                  (min (bufSize this - bufferOffset) (byteLength data - dataOffset));
         absoluteDataOffset = byteOffset data + dataOffset;
         validBufferOffset = lowerMultipleOf 4 bufferOffset;
         offsetCorrection = bufferOffset - validBufferOffset;
         validDataOffset = absoluteDataOffset - offsetCorrection;
         validSize = upperMultipleOf 4 (size + offsetCorrection)
     in (Inr (), queue @ [WriteBuffer (label this) validBufferOffset validDataOffset validSize]))"

definition DataBuffer_set_fromData ::
  "(hw_call \<Rightarrow> error option) \<Rightarrow> GPUBuffer \<Rightarrow> DataSegment \<Rightarrow> DataView \<Rightarrow> int
     \<Rightarrow> hw_call list \<Rightarrow> unit result" where
  "DataBuffer_set_fromData writeBuffer this bufferSegment data dataOffset queue =
    (let bufferOffset = orElse (segOffset bufferSegment) 0;
         size = orElse (segSize bufferSegment)
                  (min (bufSize this - bufferOffset) (byteLength data - dataOffset));
         absoluteDataOffset = byteOffset data + dataOffset;
         validBufferOffset = lowerMultipleOf 4 bufferOffset;
         offsetCorrection = bufferOffset - validBufferOffset;
         validDataOffset = absoluteDataOffset - offsetCorrection;
         validSize = upperMultipleOf 4 (size + offsetCorrection);
         call = WriteBuffer (label this) validBufferOffset validDataOffset validSize
     in case writeBuffer call of
          None \<Rightarrow> (Inr (), queue @ [call])
        | Some e \<Rightarrow> (Inl e, queue @ [call]))"

text \<open>
  \<open>copy(segmentSize).from(srcBuffer, srcOffset).to(dstBuffer, dstOffset)\<close>; the mirrored
  form \<open>copy(segmentSize).to(dstBuffer, dstOffset).from(srcBuffer, srcOffset)\<close> delegates to
  it with the same arguments. The offsets' default value 0 is applied by the callers.
\<close>

definition copy ::
  "int option \<Rightarrow> GPUBuffer \<Rightarrow> int \<Rightarrow> GPUBuffer \<Rightarrow> int \<Rightarrow> hw_call list \<Rightarrow> unit result" where
  "copy segmentSize srcBuffer srcOffset dstBuffer dstOffset queue =
    (let size = orElse segmentSize
                  (min (bufSize srcBuffer - srcOffset) (bufSize dstBuffer - dstOffset));
         srcValidOffset = lowerMultipleOf 4 srcOffset;
         dstValidOffset = lowerMultipleOf 4 dstOffset;
         srcOffsetCorrection = srcOffset - srcValidOffset;
         dstOffsetCorrection = dstOffset - dstValidOffset
     in if srcOffsetCorrection \<noteq> dstOffsetCorrection
        then (Inl (Error ''Copying between unaligned buffers is not possible!''), queue)
        else (let validSize = upperMultipleOf 4 (size + srcOffsetCorrection)
              in (Inr (), queue @ [CopyBufferToBuffer (label srcBuffer) srcValidOffset
                                     (label dstBuffer) dstValidOffset validSize])))"


section \<open>AbstractBuffer.destroy and buffer creation\<close>

definition destroy :: "GPUBuffer \<Rightarrow> hw_call list \<Rightarrow> hw_call list" where
  "destroy wrapped queue = queue @ [DestroyBuffer (label wrapped)]"

definition newBlankBuffer :: "string \<Rightarrow> int \<Rightarrow> hw_call list \<Rightarrow> GPUBuffer \<times> hw_call list" where
  "newBlankBuffer lbl size' queue =
    (let n = upperMultipleOf 4 size'
     in (\<lparr>label = lbl, bufSize = n\<rparr>, queue @ [CreateBuffer lbl n]))"

definition newInitializedBuffer ::
  "string \<Rightarrow> DataView \<Rightarrow> hw_call list \<Rightarrow> GPUBuffer \<times> hw_call list" where
  "newInitializedBuffer lbl data queue =
    (let n = upperMultipleOf 4 (byteLength data)
     in (\<lparr>label = lbl, bufSize = n\<rparr>, queue @ [CreateBuffer lbl n, Unmap lbl]))"

text \<open>
  \<open>DataBufferDescriptor\<close> carries either a size or initial data (the usage flags play no
  part in the transfers and are left out).
\<close>

datatype DataBufferDescriptor = OfSize int | OfData DataView

definition newDataBuffer ::
  "string \<Rightarrow> DataBufferDescriptor \<Rightarrow> hw_call list \<Rightarrow> GPUBuffer \<times> hw_call list" where
  "newDataBuffer lbl descriptor queue =
    (case descriptor of
       OfSize n \<Rightarrow> newBlankBuffer lbl n queue
     | OfData d \<Rightarrow> newInitializedBuffer lbl d queue)"

section \<open>BufferMapper\<close>

text \<open>
  The mapper's \<open>range\<close> field is called \<open>mapRange\<close> here. The promise chain and the timers
  of the event loop are represented by two counters: \<open>scheduled\<close> counts the calls of
  \<open>scheduleMapping\<close> whose \<open>setTimeout\<close> callback has not run yet, \<open>unmaps\<close> counts the
  \<open>finally(() => this.buffer.unmap())\<close> handlers that have not run yet.
\<close>

record BufferMapper =
  buffer :: GPUBuffer
  mapRange :: "int \<times> int"
  scheduled :: nat
  unmaps :: nat

definition newBufferMapper :: "GPUBuffer \<Rightarrow> BufferMapper" where
  "newBufferMapper b = \<lparr>buffer = b, mapRange = (bufSize b, 0), scheduled = 0, unmaps = 0\<rparr>"

definition scheduleMapping :: "BufferMapper \<Rightarrow> BufferMapper" where
  "scheduleMapping this = this\<lparr>scheduled := Suc (scheduled this)\<rparr>"

definition request :: "int \<Rightarrow> int \<Rightarrow> BufferMapper \<Rightarrow> BufferMapper" where
  "request offset size' this =
    (let mappingScheduled = snd (mapRange this) > fst (mapRange this);
         this' = this\<lparr>mapRange := (min (fst (mapRange this)) offset,
                                    max (snd (mapRange this)) (offset + size'))\<rparr>
     in if mappingScheduled then this' else scheduleMapping this')"

text \<open>
  The body of the \<open>setTimeout\<close> callback of \<open>scheduleMapping\<close>: the physical map of the
  pending range, the reset of the range, and the registration of the unmap. With no
  callback pending there is nothing to run.
\<close>

definition mappingTimer :: "BufferMapper \<Rightarrow> hw_call list \<Rightarrow> BufferMapper \<times> hw_call list" where
  "mappingTimer this queue =
    (if scheduled this = 0 then (this, queue)
     else (this\<lparr>mapRange := (bufSize (buffer this), 0),
                scheduled := scheduled this - 1,
                unmaps := Suc (unmaps this)\<rparr>,
           queue @ [MapAsync (label (buffer this)) (fst (mapRange this))
                      (snd (mapRange this) - fst (mapRange this))]))"

definition mapAsync :: "int \<Rightarrow> int \<Rightarrow> BufferMapper \<Rightarrow> BufferMapper" where
  "mapAsync offset size' this =
    (let validOffset = lowerMultipleOf 8 offset;
         offsetCorrection = offset - validOffset;
         validSize = upperMultipleOf 4 (size' + offsetCorrection)
     in request validOffset validSize this)"

text \<open>
  The mapped buffer. \<open>GPUBuffer.mapAsync\<close> and \<open>GPUBuffer.getMappedRange\<close> belong to the
  WebGPU interface, not to the repository; what the code receives from them follows the
  rules of that interface. A physical map of a live, unmapped buffer resolves when its
  offset is a multiple of 8, its size a multiple of 4 and the range lies in the buffer,
  and is rejected otherwise. A mapping holds the bytes of the buffer, the mapped range
  \<open>[lo, hi)\<close> and the ranges already returned by \<open>getMappedRange\<close> since the map;
  \<open>getMappedRange(offset, size)\<close> returns the bytes of a range with offset a multiple of
  8 and size a multiple of 4 that lies in the mapped range and overlaps no range returned
  before, and throws otherwise (\<open>None\<close>).
\<close>

record 'a Mapping =
  contents :: "'a list"
  mappedRange :: "int \<times> int"
  views :: "(int \<times> int) list"

fun resolveMap :: "'a list \<Rightarrow> hw_call \<Rightarrow> 'a Mapping option" where
  "resolveMap bytes (MapAsync b offset size') =
    (if 0 \<le> offset \<and> 0 \<le> size' \<and> 8 dvd offset \<and> 4 dvd size'
        \<and> offset + size' \<le> int (length bytes)
     then Some \<lparr>contents = bytes, mappedRange = (offset, offset + size'), views = []\<rparr>
     else None)"
| "resolveMap bytes _ = None"

definition overlaps :: "int \<times> int \<Rightarrow> int \<times> int \<Rightarrow> bool" where
  "overlaps r v = (fst r < snd v \<and> fst v < snd r)"

definition getMappedRange :: "'a Mapping \<Rightarrow> int \<Rightarrow> int \<Rightarrow> ('a list \<times> 'a Mapping) option" where
  "getMappedRange m offset size' =
    (if 8 dvd offset \<and> 4 dvd size' \<and> 0 \<le> size'
        \<and> fst (mappedRange m) \<le> offset \<and> offset + size' \<le> snd (mappedRange m)
        \<and> list_all (\<lambda>v. \<not> overlaps (offset, offset + size') v) (views m)
     then Some (take (nat size') (drop (nat offset) (contents m)),
                m\<lparr>views := views m @ [(offset, offset + size')]\<rparr>)
     else None)"

text \<open>
  \<open>new Uint8Array(buffer, byteOffset, length)\<close> throws on a window that leaves the buffer.
\<close>

definition Uint8Array :: "'a list \<Rightarrow> int \<Rightarrow> int \<Rightarrow> 'a list option" where
  "Uint8Array buf byteOffset' length' =
    (if 0 \<le> byteOffset' \<and> 0 \<le> length' \<and> byteOffset' + length' \<le> int (length buf)
     then Some (take (nat length') (drop (nat byteOffset') buf)) else None)"

text \<open>
  The fulfilment handler of a logical \<open>mapAsync(offset, size)\<close>, run on the mapping that
  serves the request:
  \<open>resolve(new Uint8Array(this.buffer.getMappedRange(validOffset, validSize).slice(),
  offsetCorrection, size))\<close>. The result is the view the caller receives, \<open>None\<close> when
  the handler throws and the caller's promise is never settled, and the mapping with the
  range handed out. \<open>mapAsync_views\<close> runs the handlers of the requests of one batch in
  the order of their arrival.
\<close>

definition mapAsync_view :: "'a Mapping \<Rightarrow> int \<Rightarrow> int \<Rightarrow> 'a list option \<times> 'a Mapping" where
  "mapAsync_view m offset size' =
    (let validOffset = lowerMultipleOf 8 offset;
         offsetCorrection = offset - validOffset;
         validSize = upperMultipleOf 4 (size' + offsetCorrection)
     in case getMappedRange m validOffset validSize of
          None \<Rightarrow> (None, m)
        | Some (range', m') \<Rightarrow> (Uint8Array range' offsetCorrection size', m'))"

fun mapAsync_views :: "'a Mapping \<Rightarrow> (int \<times> int) list \<Rightarrow> 'a list option list" where
  "mapAsync_views m [] = []"
| "mapAsync_views m ((offset, size') # rs) =
    (case mapAsync_view m offset size' of (v, m') \<Rightarrow> v # mapAsync_views m' rs)"

text \<open>
  The alignment-corrected range \<open>[validOffset, validOffset + validSize)\<close> that
  \<open>mapAsync(offset, size)\<close> hands to \<open>request\<close>, for a request \<open>(offset, size)\<close>.
\<close>

definition validRange :: "int \<times> int \<Rightarrow> int \<times> int" where
  "validRange r =
    (lowerMultipleOf 8 (fst r),
     lowerMultipleOf 8 (fst r) + upperMultipleOf 4 (snd r + (fst r - lowerMultipleOf 8 (fst r))))"

text \<open>A batch of logical requests issued one after the other, then timer callbacks.\<close>

fun mapAsyncs :: "(int \<times> int) list \<Rightarrow> BufferMapper \<Rightarrow> BufferMapper" where
  "mapAsyncs [] this = this"
| "mapAsyncs ((offset, size') # rs) this = mapAsyncs rs (mapAsync offset size' this)"

fun mappingTimers :: "nat \<Rightarrow> BufferMapper \<Rightarrow> hw_call list \<Rightarrow> BufferMapper \<times> hw_call list" where
  "mappingTimers 0 this queue = (this, queue)"
| "mappingTimers (Suc k) this queue =
    (case mappingTimer this queue of (this', queue') \<Rightarrow> mappingTimers k this' queue')"

section \<open>ReadBuffer and DataBuffer.get(...).asData\<close>

record ReadBuffer =
  wrapped :: GPUBuffer
  mapper :: BufferMapper

definition newReadBuffer :: "string \<Rightarrow> int \<Rightarrow> hw_call list \<Rightarrow> ReadBuffer \<times> hw_call list" where
  "newReadBuffer lbl size' queue =
    (case newBlankBuffer lbl size' queue of
       (b, queue') \<Rightarrow> (\<lparr>wrapped = b, mapper = newBufferMapper b\<rparr>, queue'))"

text \<open>
  \<open>ReadBuffer.get(bufferSegment).asData(data, dataOffset)\<close> up to its \<open>await\<close>: the logical
  map request is registered with the mapper; the bytes are copied out only after the
  physical map has resolved.
\<close>

definition ReadBuffer_get_asData ::
  "ReadBuffer \<Rightarrow> DataSegment \<Rightarrow> DataView option \<Rightarrow> int \<Rightarrow> ReadBuffer" where
  "ReadBuffer_get_asData this bufferSegment data dataOffset =
    (let bufferOffset = orElse (segOffset bufferSegment) 0;
         dataView = orElse data
                      \<lparr>byteOffset = 0,
                       byteLength = orElse (segSize bufferSegment)
                                      (bufSize (wrapped this) - bufferOffset)\<rparr>;
         size = orElse (segSize bufferSegment)
                  (min (bufSize (wrapped this) - bufferOffset) (byteLength dataView - dataOffset))
     in this\<lparr>mapper := mapAsync bufferOffset size (mapper this)\<rparr>)"

text \<open>
  \<open>DataBuffer.get(bufferSegment).asData(data, dataOffset)\<close>. The function is not \<open>async\<close>:
  it returns the promise of the staging buffer's \<open>asData\<close> and its \<open>finally\<close> block runs
  before it returns, in both branches of the \<open>try\<close>.
\<close>

definition DataBuffer_get_asData ::
  "GPUBuffer \<Rightarrow> DataSegment \<Rightarrow> DataView option \<Rightarrow> int \<Rightarrow> hw_call list \<Rightarrow> ReadBuffer result" where
  "DataBuffer_get_asData this bufferSegment data dataOffset queue =
    (let dataSize = (case data of Some d \<Rightarrow> byteLength d | None \<Rightarrow> bufSize this);
         bufferOffset = orElse (segOffset bufferSegment) 0;
         size = orElse (segSize bufferSegment)
                  (min (bufSize this - bufferOffset) (dataSize - dataOffset))
     in case newReadBuffer (label this @ ''-temp'') size queue of
          (temp, queue1) \<Rightarrow>
            (case copy (segSize bufferSegment) this (orElse (segOffset bufferSegment) 0)
                    (wrapped temp) 0 queue1 of
               (Inl e, queue2) \<Rightarrow> (Inl e, destroy (wrapped temp) queue2)
             | (Inr _, queue2) \<Rightarrow>
                 (Inr (ReadBuffer_get_asData temp \<lparr>segOffset = None, segSize = None\<rparr>
                         data dataOffset),
                  destroy (wrapped temp) queue2)))"

section \<open>SyncBuffer\<close>

text \<open>
  \<open>flushes\<close> counts the \<open>setTimeout(() => this.clean())\<close> callbacks that have not run yet.
  An element is represented by its \<open>range()\<close>, the pair of its first byte and the byte
  after its last; the bytes of the mirror are not part of the model.
\<close>

record SyncBuffer =
  gpuBuffer :: GPUBuffer
  cpuBuffer :: DataView
  dirtyRange :: "int \<times> int"
  flushes :: nat

definition SyncBuffer_create ::
  "string \<Rightarrow> DataBufferDescriptor \<Rightarrow> hw_call list \<Rightarrow> SyncBuffer \<times> hw_call list" where
  "SyncBuffer_create lbl descriptor queue =
    (case newDataBuffer lbl descriptor queue of
       (gpu, queue') \<Rightarrow>
         (let cpu = (case descriptor of
                       OfData d \<Rightarrow> d
                     | OfSize _ \<Rightarrow> \<lparr>byteOffset = 0, byteLength = bufSize gpu\<rparr>)
          in (\<lparr>gpuBuffer = gpu, cpuBuffer = cpu,
               dirtyRange = (byteLength cpu, 0), flushes = 0\<rparr>, queue')))"

definition dirty :: "int \<times> int \<Rightarrow> SyncBuffer \<Rightarrow> SyncBuffer" where
  "dirty range' this =
    (let s1 = (if fst (dirtyRange this) > snd (dirtyRange this)
               then this\<lparr>flushes := Suc (flushes this)\<rparr> else this);
         s2 = (if fst range' < fst (dirtyRange s1)
               then s1\<lparr>dirtyRange := (fst range', snd (dirtyRange s1))\<rparr> else s1);
         s3 = (if snd range' > snd (dirtyRange s2)
               then s2\<lparr>dirtyRange := (fst (dirtyRange s2), snd range')\<rparr> else s2)
     in s3)"

definition clean :: "SyncBuffer \<Rightarrow> hw_call list \<Rightarrow> SyncBuffer \<times> hw_call list" where
  "clean this queue =
    (let offset = fst (dirtyRange this);
         size = snd (dirtyRange this) - fst (dirtyRange this);
         queue' = snd (DataBuffer_set (gpuBuffer this)
                         \<lparr>segOffset = Some offset, segSize = Some size\<rparr>
                         (cpuBuffer this) offset queue)
     in (this\<lparr>dirtyRange := (byteLength (cpuBuffer this), 0)\<rparr>, queue'))"

text \<open>
  The events of one buffer: \<open>Set r\<close> is \<open>set(element, value)\<close> for an element with range
  \<open>r\<close>; \<open>Timer\<close> runs one pending \<open>clean\<close> callback, if there is one.
\<close>

datatype event = Set "int \<times> int" | Timer

fun step :: "SyncBuffer \<times> hw_call list \<Rightarrow> event \<Rightarrow> SyncBuffer \<times> hw_call list" where
  "step (this, queue) (Set r) = (dirty r this, queue)"
| "step (this, queue) Timer =
    (if flushes this = 0 then (this, queue)
     else clean (this\<lparr>flushes := flushes this - 1\<rparr>) queue)"

definition run :: "SyncBuffer \<times> hw_call list \<Rightarrow> event list \<Rightarrow> SyncBuffer \<times> hw_call list" where
  "run s es = foldl step s es"

definition wellFormed :: "event \<Rightarrow> bool" where
  "wellFormed e = (case e of Set r \<Rightarrow> fst r \<le> snd r | Timer \<Rightarrow> True)"

section \<open>Facts about the alignment helpers\<close>

lemma lowerMultipleOf_floor:
  "lowerMultipleOf n v = \<lfloor>real_of_int v / real_of_int n\<rfloor> * n"
  by (simp add: lowerMultipleOf_def floor_divide_of_int_eq)

lemma upperMultipleOf_ceiling:
  "upperMultipleOf n v = \<lceil>real_of_int v / real_of_int n\<rceil> * n"
proof -
  have "\<lceil>real_of_int v / real_of_int n\<rceil> = - \<lfloor>real_of_int (- v) / real_of_int n\<rfloor>"
    by (simp add: ceiling_def)
  also have "\<dots> = - ((- v) div n)"
    by (simp only: floor_divide_of_int_eq)
  finally show ?thesis
    by (simp add: upperMultipleOf_def)
qed

lemma lowerMultipleOf_correction: "v - lowerMultipleOf n v = v mod n"
  by (simp add: lowerMultipleOf_def minus_div_mult_eq_mod)

lemma lowerMultipleOf_le: "0 < n \<Longrightarrow> lowerMultipleOf n v \<le> v"
  using lowerMultipleOf_correction [of v n] pos_mod_sign [of n v] by linarith


lemma upperMultipleOf_dvd: "n dvd upperMultipleOf n v"
  by (simp add: upperMultipleOf_def)

lemma upperMultipleOf_ge: "0 < n \<Longrightarrow> v \<le> upperMultipleOf n v"
proof -
  assume n: "0 < n"
  have "(- v) div n * n \<le> - v"
    using lowerMultipleOf_le [OF n, of "- v"] by (simp add: lowerMultipleOf_def)
  then show ?thesis
    by (simp add: upperMultipleOf_def)
qed


lemma upperMultipleOf_fixed: "n dvd v \<Longrightarrow> upperMultipleOf n v = v"
  by (auto simp: upperMultipleOf_def)


lemma lowerMultipleOf_nonneg: "0 < n \<Longrightarrow> 0 \<le> v \<Longrightarrow> 0 \<le> lowerMultipleOf n v"
  by (simp add: lowerMultipleOf_def pos_imp_zdiv_nonneg_iff)

section \<open>Facts about the operations\<close>

text \<open>The calls an operation issues do not depend on the calls issued before it.\<close>

lemma DataBuffer_set_queue:
  "DataBuffer_set this seg data off queue =
     (Inr (), queue @ snd (DataBuffer_set this seg data off []))"
  by (simp add: DataBuffer_set_def Let_def)

lemma DataBuffer_set_accepting: "DataBuffer_set_fromData (\<lambda>c. None) = DataBuffer_set"
  by (rule ext)+ (simp add: DataBuffer_set_fromData_def DataBuffer_set_def Let_def)

lemma copy_queue:
  "copy n src so dst d queue = (fst (copy n src so dst d []), queue @ snd (copy n src so dst d []))"
  by (simp add: copy_def Let_def)

lemma DataBuffer_get_asData_queue:
  "DataBuffer_get_asData this seg data off queue =
     (fst (DataBuffer_get_asData this seg data off []),
      queue @ snd (DataBuffer_get_asData this seg data off []))"
  by (simp add: DataBuffer_get_asData_def newReadBuffer_def newBlankBuffer_def copy_def
      destroy_def Let_def)

lemma mapAsync_fresh_timer:
  assumes "0 \<le> bufSize b"
  shows "snd (mappingTimer (mapAsync offset size' (newBufferMapper b)) queue) =
     queue @ [MapAsync (label b) (min (bufSize b) (lowerMultipleOf 8 offset))
        (max 0 (lowerMultipleOf 8 offset
                  + upperMultipleOf 4 (size' + (offset - lowerMultipleOf 8 offset)))
           - min (bufSize b) (lowerMultipleOf 8 offset))]"
  using assms
  by (simp add: mappingTimer_def mapAsync_def request_def newBufferMapper_def
      scheduleMapping_def Let_def)


subsection \<open>BufferMapper: requests of positive size coalesce\<close>

lemma mapAsync_validRange:
  "mapAsync offset size' m =
     request (fst (validRange (offset, size')))
       (snd (validRange (offset, size')) - fst (validRange (offset, size'))) m"
  by (simp add: mapAsync_def validRange_def Let_def)

lemma validRange_bounds:
  assumes "0 \<le> fst r" and "0 < snd r"
  shows "0 \<le> fst (validRange r)" and "fst (validRange r) \<le> fst r"
    and "fst r + snd r \<le> snd (validRange r)" and "fst (validRange r) < snd (validRange r)"
proof -
  show a: "0 \<le> fst (validRange r)"
    using assms(1) by (simp add: validRange_def lowerMultipleOf_nonneg)
  show b: "fst (validRange r) \<le> fst r"
    by (simp add: validRange_def lowerMultipleOf_le)
  have "snd r + (fst r - lowerMultipleOf 8 (fst r))
      \<le> upperMultipleOf 4 (snd r + (fst r - lowerMultipleOf 8 (fst r)))"
    by (rule upperMultipleOf_ge) simp
  then show c: "fst r + snd r \<le> snd (validRange r)"
    by (simp add: validRange_def)
  show "fst (validRange r) < snd (validRange r)"
    using b c assms(2) by linarith
qed

lemma mapAsyncs_single: "mapAsyncs [r] m = mapAsync (fst r) (snd r) m"
  by (cases r) simp

lemma mapAsyncs_append: "mapAsyncs (xs @ ys) m = mapAsyncs ys (mapAsyncs xs m)"
  by (induction xs m rule: mapAsyncs.induct) simp_all

lemma mapAsyncs_snoc: "mapAsyncs (rs @ [r]) m = mapAsync (fst r) (snd r) (mapAsyncs rs m)"
  by (simp add: mapAsyncs_append mapAsyncs_single)

lemma mappingTimers_idle: "scheduled m = 0 \<Longrightarrow> mappingTimers j m q = (m, q)"
  by (induction j) (simp_all add: mappingTimer_def)

lemma requests_coalesce:
  assumes "rs \<noteq> []"
    and "\<forall>r\<in>set rs. 0 \<le> fst r \<and> 0 < snd r \<and> fst r + snd r \<le> bufSize b"
  shows "mapAsyncs rs (newBufferMapper b) =
     \<lparr>buffer = b,
      mapRange = (Min (fst ` validRange ` set rs), Max (snd ` validRange ` set rs)),
      scheduled = 1, unmaps = 0\<rparr>"
  using assms
proof (induction rs rule: rev_induct)
  case Nil
  then show ?case by simp
next
  case (snoc r rs)
  have r: "0 \<le> fst r" "0 < snd r" "fst r + snd r \<le> bufSize b"
    using snoc.prems(2) by simp_all
  note vr = validRange_bounds [OF r(1,2)]
  show ?case
  proof (cases "rs = []")
    case True
    have "min (bufSize b) (fst (validRange r)) = fst (validRange r)"
      using vr(2) r by linarith
    moreover have "max 0 (snd (validRange r)) = snd (validRange r)"
      using vr(3) r by linarith
    moreover have "\<not> 0 > bufSize b"
      using r by linarith
    ultimately show ?thesis
      using True
      by (simp add: mapAsyncs_single mapAsync_validRange request_def scheduleMapping_def
          newBufferMapper_def Let_def)
  next
    case False
    then have ih: "mapAsyncs rs (newBufferMapper b) =
       \<lparr>buffer = b, mapRange = (Min (fst ` validRange ` set rs), Max (snd ` validRange ` set rs)),
        scheduled = 1, unmaps = 0\<rparr>"
      using snoc.IH snoc.prems(2) by simp
    obtain r0 where r0: "r0 \<in> set rs"
      using False by (cases rs) auto
    then have "0 \<le> fst r0" "0 < snd r0"
      using snoc.prems(2) by simp_all
    then have "fst (validRange r0) < snd (validRange r0)"
      by (rule validRange_bounds)
    moreover have "Min (fst ` validRange ` set rs) \<le> fst (validRange r0)"
      "snd (validRange r0) \<le> Max (snd ` validRange ` set rs)"
      using r0 by simp_all
    ultimately have sched: "Max (snd ` validRange ` set rs) > Min (fst ` validRange ` set rs)"
      by linarith
    have "Min (fst ` validRange ` set (rs @ [r])) =
        min (Min (fst ` validRange ` set rs)) (fst (validRange r))"
      using False by (simp add: min.commute)
    moreover have "Max (snd ` validRange ` set (rs @ [r])) =
        max (Max (snd ` validRange ` set rs)) (snd (validRange r))"
      using False by (simp add: max.commute)
    ultimately show ?thesis
      using ih sched
      by (simp add: mapAsyncs_snoc mapAsync_validRange request_def Let_def)
  qed
qed

text \<open>
  For requests of positive size that lie inside the buffer, a batch issued before the
  timer callback runs schedules one callback; the callback issues one physical map over
  the hull of the corrected ranges and resets the range, and further timer steps find
  nothing to run.
\<close>

lemma requests_coalesce_into_one_map:
  assumes "rs \<noteq> []"
    and "\<forall>r\<in>set rs. 0 \<le> fst r \<and> 0 < snd r \<and> fst r + snd r \<le> bufSize b"
  shows "scheduled (mapAsyncs rs (newBufferMapper b)) = 1
    \<and> mapRange (mapAsyncs rs (newBufferMapper b)) =
        (Min (fst ` validRange ` set rs), Max (snd ` validRange ` set rs))
    \<and> mappingTimer (mapAsyncs rs (newBufferMapper b)) queue =
        (\<lparr>buffer = b, mapRange = (bufSize b, 0), scheduled = 0, unmaps = 1\<rparr>,
         queue @ [MapAsync (label b) (Min (fst ` validRange ` set rs))
                    (Max (snd ` validRange ` set rs) - Min (fst ` validRange ` set rs))])
    \<and> mappingTimers k (mapAsyncs rs (newBufferMapper b)) queue =
        (if k = 0 then (mapAsyncs rs (newBufferMapper b), queue)
         else mappingTimer (mapAsyncs rs (newBufferMapper b)) queue)"
proof -
  note m = requests_coalesce [OF assms]
  have t: "mappingTimer (mapAsyncs rs (newBufferMapper b)) queue =
        (\<lparr>buffer = b, mapRange = (bufSize b, 0), scheduled = 0, unmaps = 1\<rparr>,
         queue @ [MapAsync (label b) (Min (fst ` validRange ` set rs))
                    (Max (snd ` validRange ` set rs) - Min (fst ` validRange ` set rs))])"
    by (simp add: m mappingTimer_def)
  have "mappingTimers k (mapAsyncs rs (newBufferMapper b)) queue =
        (if k = 0 then (mapAsyncs rs (newBufferMapper b), queue)
         else mappingTimer (mapAsyncs rs (newBufferMapper b)) queue)"
    by (cases k) (simp_all add: t mappingTimers_idle)
  then show ?thesis
    using m t by simp
qed

text \<open>
  Two requests of one batch whose corrected ranges overlap: \<open>mapAsync(0, 4)\<close> and
  \<open>mapAsync(4, 4)\<close> ask for \<open>[0, 4)\<close> and \<open>[0, 8)\<close> of one mapping, and the second
  handler throws.
\<close>

lemma requests_in_one_block:
  "mapAsyncs [(0, 4), (4, 4)] (newBufferMapper \<lparr>label = ''b'', bufSize = 8\<rparr>) =
     \<lparr>buffer = \<lparr>label = ''b'', bufSize = 8\<rparr>, mapRange = (0, 8), scheduled = 1, unmaps = 0\<rparr>
   \<and> resolveMap [0, 1, 2, 3, 4, 5, 6, 7 :: nat] (MapAsync ''b'' 0 8) =
       Some \<lparr>contents = [0, 1, 2, 3, 4, 5, 6, 7], mappedRange = (0, 8), views = []\<rparr>
   \<and> mapAsync_views \<lparr>contents = [0, 1, 2, 3, 4, 5, 6, 7 :: nat], mappedRange = (0, 8), views = []\<rparr>
        [(0, 4), (4, 4)] = [Some [0, 1, 2, 3], None]"
  by (simp add: mapAsync_def request_def newBufferMapper_def scheduleMapping_def
      mapAsync_view_def getMappedRange_def Uint8Array_def overlaps_def
      lowerMultipleOf_def upperMultipleOf_def)

subsection \<open>SyncBuffer: the dirty range and the pending flush\<close>

lemma dirty_simps:
  "dirtyRange (dirty r s) = (min (fst (dirtyRange s)) (fst r), max (snd (dirtyRange s)) (snd r))"
  "flushes (dirty r s) =
     (if fst (dirtyRange s) > snd (dirtyRange s) then Suc (flushes s) else flushes s)"
  "gpuBuffer (dirty r s) = gpuBuffer s"
  "cpuBuffer (dirty r s) = cpuBuffer s"
  by (cases "dirtyRange s"; auto simp: dirty_def Let_def min_def max_def)+

lemma clean_simps:
  "dirtyRange (fst (clean s q)) = (byteLength (cpuBuffer s), 0)"
  "flushes (fst (clean s q)) = flushes s"
  "gpuBuffer (fst (clean s q)) = gpuBuffer s"
  "cpuBuffer (fst (clean s q)) = cpuBuffer s"
  "snd (clean s q) = snd (DataBuffer_set (gpuBuffer s)
      \<lparr>segOffset = Some (fst (dirtyRange s)),
       segSize = Some (snd (dirtyRange s) - fst (dirtyRange s))\<rparr>
      (cpuBuffer s) (fst (dirtyRange s)) q)"
  by (simp_all add: clean_def Let_def)

lemma run_snoc: "run s (es @ [e]) = step (run s es) e"
  by (simp add: run_def)

lemma run_Nil: "run s [] = s"
  by (simp add: run_def)

lemma SyncBuffer_create_simps:
  "dirtyRange (fst (SyncBuffer_create lbl d q)) =
     (byteLength (cpuBuffer (fst (SyncBuffer_create lbl d q))), 0)"
  "flushes (fst (SyncBuffer_create lbl d q)) = 0"
  by (simp_all add: SyncBuffer_create_def newDataBuffer_def newBlankBuffer_def
      newInitializedBuffer_def Let_def split: DataBufferDescriptor.splits)

lemma run_sets:
  assumes "rs \<noteq> []"
    and "\<forall>r\<in>set rs. 0 \<le> fst r \<and> fst r \<le> snd r \<and> snd r \<le> byteLength (cpuBuffer this)"
    and "0 < byteLength (cpuBuffer this)"
    and "dirtyRange this = (byteLength (cpuBuffer this), 0)"
    and "flushes this = 0"
  shows "dirtyRange (fst (run (this, queue) (map Set rs))) = (Min (fst ` set rs), Max (snd ` set rs))
    \<and> flushes (fst (run (this, queue) (map Set rs))) = 1
    \<and> gpuBuffer (fst (run (this, queue) (map Set rs))) = gpuBuffer this
    \<and> cpuBuffer (fst (run (this, queue) (map Set rs))) = cpuBuffer this
    \<and> snd (run (this, queue) (map Set rs)) = queue"
  using assms(1,2)
proof (induction rs rule: rev_induct)
  case Nil
  then show ?case by simp
next
  case (snoc r rs)
  obtain s q where sq: "run (this, queue) (map Set rs) = (s, q)"
    by (cases "run (this, queue) (map Set rs)")
  have r: "0 \<le> fst r" "fst r \<le> snd r" "snd r \<le> byteLength (cpuBuffer this)"
    using snoc.prems(2) by simp_all
  show ?case
  proof (cases "rs = []")
    case True
    then have "s = this" "q = queue"
      using sq by (simp_all add: run_Nil)
    then show ?thesis
      using True r assms(3,4,5)
      by (simp add: run_def dirty_simps)
  next
    case False
    then have ih: "dirtyRange s = (Min (fst ` set rs), Max (snd ` set rs))" "flushes s = 1"
        "gpuBuffer s = gpuBuffer this" "cpuBuffer s = cpuBuffer this" "q = queue"
      using snoc.IH snoc.prems(2) sq by simp_all
    obtain r0 where r0: "r0 \<in> set rs"
      using False by (cases rs) auto
    have "Min (fst ` set rs) \<le> fst r0" "snd r0 \<le> Max (snd ` set rs)"
      using r0 by simp_all
    moreover have "fst r0 \<le> snd r0"
      using r0 snoc.prems(2) by simp
    ultimately have ne: "\<not> Min (fst ` set rs) > Max (snd ` set rs)"
      by linarith
    have "Min (fst ` set (rs @ [r])) = min (Min (fst ` set rs)) (fst r)"
      using False by (simp add: min.commute)
    moreover have "Max (snd ` set (rs @ [r])) = max (Max (snd ` set rs)) (snd r)"
      using False by (simp add: max.commute)
    ultimately show ?thesis
      using ih ne sq by (simp add: run_snoc dirty_simps)
  qed
qed

text \<open>
  The invariant behind the single pending flush: at most one \<open>clean\<close> callback is
  pending, and while one is pending the dirty range is not in its empty encoding.
\<close>

lemma step_invariant:
  assumes "wellFormed e"
    and "flushes (fst s) \<le> 1"
    and "flushes (fst s) = 1 \<longrightarrow> fst (dirtyRange (fst s)) \<le> snd (dirtyRange (fst s))"
  shows "flushes (fst (step s e)) \<le> 1
    \<and> (flushes (fst (step s e)) = 1 \<longrightarrow>
          fst (dirtyRange (fst (step s e))) \<le> snd (dirtyRange (fst (step s e))))"
proof (cases s)
  case (Pair b q)
  show ?thesis
  proof (cases e)
    case (Set r)
    then have "fst r \<le> snd r"
      using assms(1) by (simp add: wellFormed_def)
    then show ?thesis
      using assms(2,3) Pair Set by (auto simp: dirty_simps)
  next
    case Timer
    then show ?thesis
      using assms(2,3) Pair by (auto simp: clean_simps)
  qed
qed

lemma run_invariant:
  assumes "\<forall>e\<in>set es. wellFormed e"
  shows "flushes (fst (run (SyncBuffer_create lbl descriptor queue) es)) \<le> 1
    \<and> (flushes (fst (run (SyncBuffer_create lbl descriptor queue) es)) = 1 \<longrightarrow>
          fst (dirtyRange (fst (run (SyncBuffer_create lbl descriptor queue) es)))
            \<le> snd (dirtyRange (fst (run (SyncBuffer_create lbl descriptor queue) es))))"
  using assms
proof (induction es rule: rev_induct)
  case Nil
  then show ?case
    by (simp add: run_Nil SyncBuffer_create_simps)
next
  case (snoc e es)
  then show ?case
    using step_invariant [of e "run (SyncBuffer_create lbl descriptor queue) es"]
    by (simp add: run_snoc)
qed

section \<open>The claims\<close>

subsection \<open>C1: coalescing of logical map requests\<close>

text \<open>
  Claim C1. Logical \<open>mapAsync\<close> calls issued before the first one's physical map fires
  are to produce exactly one physical \<open>mapAsync\<close>, over the hull of the corrected ranges,
  and the pending range is reset when it fires. \<open>request\<close> takes \<open>range[1] > range[0]\<close>
  as "a mapping is scheduled", so a request of size 0 leaves the range at \<open>[0, 0]\<close> and
  the next request of the same batch calls \<open>scheduleMapping\<close> again. The evaluation below
  is the batch \<open>mapAsync(0, 0)\<close>, \<open>mapAsync(0, 8)\<close> on a buffer of 16 bytes: two callbacks
  are pending, and they issue two physical maps, the second one over the range as reset
  by the first, offset 16 and size -16. (For requests of positive size inside the buffer
  the claim holds: lemma \<open>requests_coalesce_into_one_map\<close>.)
\<close>

theorem empty_request_schedules_two_maps:
  "scheduled (mapAsyncs [(0, 0), (0, 8)] (newBufferMapper \<lparr>label = ''b'', bufSize = 16\<rparr>)) = 2
   \<and> snd (mappingTimers 2
            (mapAsyncs [(0, 0), (0, 8)] (newBufferMapper \<lparr>label = ''b'', bufSize = 16\<rparr>)) [])
       = [MapAsync ''b'' 0 8, MapAsync ''b'' 16 (- 16)]"
  by (simp add: mapAsync_def request_def newBufferMapper_def scheduleMapping_def mappingTimer_def
      lowerMultipleOf_def upperMultipleOf_def numeral_2_eq_2)

subsection \<open>C2: one write for all the set calls before the flush\<close>

text \<open>
  Claim C2. On a SyncBuffer as \<open>SyncBuffer.create\<close> returns it, with a mirror of at least
  one byte, after any non-empty sequence of \<open>set\<close> calls on elements that lie in the mirror
  the dirty range is the pair of the least first byte and the greatest end of the
  elements written, which is the smallest interval that contains all of them; exactly
  one flush is pending, and no hardware call has been made.
  The flush then makes the one call \<open>gpuBuffer.set({offset: lo, size: hi - lo})
  .fromData(cpuBuffer, lo)\<close>, which issues one queue write, and leaves the buffer as it
  was created; a further timer step does nothing.
\<close>

theorem set_calls_coalesce_into_one_write:
  assumes "rs \<noteq> []"
    and "\<forall>r\<in>set rs. 0 \<le> fst r \<and> fst r \<le> snd r \<and> snd r \<le> byteLength (cpuBuffer this)"
    and "0 < byteLength (cpuBuffer this)"
    and "SyncBuffer_create lbl descriptor queue0 = (this, queue)"
  shows "dirtyRange (fst (run (this, queue) (map Set rs))) = (Min (fst ` set rs), Max (snd ` set rs))
    \<and> flushes (fst (run (this, queue) (map Set rs))) = 1
    \<and> snd (run (this, queue) (map Set rs)) = queue
    \<and> run (this, queue) (map Set rs @ [Timer]) =
        (this, snd (DataBuffer_set (gpuBuffer this)
                 \<lparr>segOffset = Some (Min (fst ` set rs)),
                  segSize = Some (Max (snd ` set rs) - Min (fst ` set rs))\<rparr>
                 (cpuBuffer this) (Min (fst ` set rs)) queue))
    \<and> snd (run (this, queue) (map Set rs @ [Timer])) =
        queue @ [WriteBuffer (label (gpuBuffer this)) (lowerMultipleOf 4 (Min (fst ` set rs)))
                   (byteOffset (cpuBuffer this) + Min (fst ` set rs) - Min (fst ` set rs) mod 4)
                   (upperMultipleOf 4 (Max (snd ` set rs) - Min (fst ` set rs)
                                        + Min (fst ` set rs) mod 4))]
    \<and> run (this, queue) (map Set rs @ [Timer, Timer]) = run (this, queue) (map Set rs @ [Timer])
    \<and> (\<forall>r\<in>set rs. Min (fst ` set rs) \<le> fst r \<and> snd r \<le> Max (snd ` set rs))
    \<and> (\<forall>a b. (\<forall>r\<in>set rs. a \<le> fst r \<and> snd r \<le> b) \<longrightarrow>
               a \<le> Min (fst ` set rs) \<and> Max (snd ` set rs) \<le> b)"
proof -
  have hull: "\<forall>r\<in>set rs. Min (fst ` set rs) \<le> fst r \<and> snd r \<le> Max (snd ` set rs)"
    by simp
  have least: "\<forall>a b. (\<forall>r\<in>set rs. a \<le> fst r \<and> snd r \<le> b) \<longrightarrow>
               a \<le> Min (fst ` set rs) \<and> Max (snd ` set rs) \<le> b"
    using assms(1) by simp
  have fresh: "dirtyRange this = (byteLength (cpuBuffer this), 0)" "flushes this = 0"
    using SyncBuffer_create_simps [of lbl descriptor queue0] assms(4) by simp_all
  obtain s q where sq: "run (this, queue) (map Set rs) = (s, q)"
    by (cases "run (this, queue) (map Set rs)")
  have s: "dirtyRange s = (Min (fst ` set rs), Max (snd ` set rs))" "flushes s = 1"
      "gpuBuffer s = gpuBuffer this" "cpuBuffer s = cpuBuffer this" "q = queue"
    using run_sets [OF assms(1,2,3) fresh, of queue] sq by simp_all
  have t: "run (this, queue) (map Set rs @ [Timer]) = clean (s\<lparr>flushes := 0\<rparr>) queue"
    using sq s by (simp add: run_def)
  have "fst (clean (s\<lparr>flushes := 0\<rparr>) queue) = this"
    using s fresh by (simp add: clean_def Let_def)
  moreover have w: "snd (clean (s\<lparr>flushes := 0\<rparr>) queue) =
      snd (DataBuffer_set (gpuBuffer this)
                 \<lparr>segOffset = Some (Min (fst ` set rs)),
                  segSize = Some (Max (snd ` set rs) - Min (fst ` set rs))\<rparr>
                 (cpuBuffer this) (Min (fst ` set rs)) queue)"
    using s by (simp add: clean_simps)
  ultimately have c: "clean (s\<lparr>flushes := 0\<rparr>) queue =
      (this, snd (DataBuffer_set (gpuBuffer this)
                 \<lparr>segOffset = Some (Min (fst ` set rs)),
                  segSize = Some (Max (snd ` set rs) - Min (fst ` set rs))\<rparr>
                 (cpuBuffer this) (Min (fst ` set rs)) queue))"
    by (simp add: prod_eq_iff)
  have "run (this, queue) (map Set rs @ [Timer, Timer]) =
      step (run (this, queue) (map Set rs @ [Timer])) Timer"
    by (simp add: run_def)
  then have tt: "run (this, queue) (map Set rs @ [Timer, Timer]) =
      run (this, queue) (map Set rs @ [Timer])"
    using t c fresh by simp
  have "snd (run (this, queue) (map Set rs @ [Timer])) =
        queue @ [WriteBuffer (label (gpuBuffer this)) (lowerMultipleOf 4 (Min (fst ` set rs)))
                   (byteOffset (cpuBuffer this) + Min (fst ` set rs) - Min (fst ` set rs) mod 4)
                   (upperMultipleOf 4 (Max (snd ` set rs) - Min (fst ` set rs)
                                        + Min (fst ` set rs) mod 4))]"
    using t c by (simp add: DataBuffer_set_def Let_def orElse_def lowerMultipleOf_correction)
  then show ?thesis
    using sq s t c tt hull least by simp
qed

text \<open>
  The scenario of the claim: a buffer created with size 10 has 12 bytes; \<open>set\<close> on bytes
  \<open>[3, 5)\<close> makes the dirty range \<open>(3, 5)\<close>, a second \<open>set\<close> on \<open>[7, 9)\<close> widens it to
  \<open>(3, 9)\<close>, and the flush is the one write from the host at offset 3 with 6 bytes (the
  queue write of the 12 bytes at offset 0 after the alignment correction).
\<close>

theorem set_calls_coalesce_witness:
  "SyncBuffer_create ''b'' (OfSize 10) [] =
     (\<lparr>gpuBuffer = \<lparr>label = ''b'', bufSize = 12\<rparr>, cpuBuffer = \<lparr>byteOffset = 0, byteLength = 12\<rparr>,
       dirtyRange = (12, 0), flushes = 0\<rparr>, [CreateBuffer ''b'' 12])
   \<and> dirtyRange (fst (run (SyncBuffer_create ''b'' (OfSize 10) []) [Set (3, 5)])) = (3, 5)
   \<and> dirtyRange (fst (run (SyncBuffer_create ''b'' (OfSize 10) []) [Set (3, 5), Set (7, 9)])) = (3, 9)
   \<and> snd (run (SyncBuffer_create ''b'' (OfSize 10) []) [Set (3, 5), Set (7, 9), Timer]) =
       snd (DataBuffer_set \<lparr>label = ''b'', bufSize = 12\<rparr> \<lparr>segOffset = Some 3, segSize = Some 6\<rparr>
              \<lparr>byteOffset = 0, byteLength = 12\<rparr> 3 [CreateBuffer ''b'' 12])
   \<and> snd (run (SyncBuffer_create ''b'' (OfSize 10) []) [Set (3, 5), Set (7, 9), Timer]) =
       [CreateBuffer ''b'' 12, WriteBuffer ''b'' 0 0 12]"
proof -
  let ?sb = "\<lparr>gpuBuffer = \<lparr>label = ''b'', bufSize = 12\<rparr>,
      cpuBuffer = \<lparr>byteOffset = 0, byteLength = 12\<rparr>, dirtyRange = (12, 0), flushes = 0\<rparr>"
  have c: "SyncBuffer_create ''b'' (OfSize 10) [] = (?sb, [CreateBuffer ''b'' 12])"
    by (simp add: SyncBuffer_create_def newDataBuffer_def newBlankBuffer_def upperMultipleOf_def)
  have one: "dirtyRange (fst (run (?sb, [CreateBuffer ''b'' 12]) [Set (3, 5)])) = (3, 5)"
    by (simp add: run_def dirty_def)
  have h1: "[(3, 5), (7, 9)] \<noteq> ([] :: (int \<times> int) list)"
    by simp
  have h2: "\<forall>r\<in>set [(3, 5), (7, 9)]. 0 \<le> fst r \<and> fst r \<le> snd r
      \<and> snd r \<le> byteLength (cpuBuffer ?sb)"
    by simp
  have h3: "0 < byteLength (cpuBuffer ?sb)"
    by simp
  note two = set_calls_coalesce_into_one_write [OF h1 h2 h3 c]
  have w: "snd (DataBuffer_set \<lparr>label = ''b'', bufSize = 12\<rparr> \<lparr>segOffset = Some 3, segSize = Some 6\<rparr>
              \<lparr>byteOffset = 0, byteLength = 12\<rparr> 3 [CreateBuffer ''b'' 12]) =
       [CreateBuffer ''b'' 12, WriteBuffer ''b'' 0 0 12]"
    by (simp add: DataBuffer_set_def orElse_def lowerMultipleOf_def upperMultipleOf_def)
  show ?thesis
    using c one two w by simp
qed

subsection \<open>C3: a write from the host beyond the capacity\<close>

text \<open>
  Claim C3, as amended. \<open>DataBuffer.set({offset, size}).fromData\<close> has no bounds check of
  its own: for every offset and size, also when \<open>offset + size\<close> exceeds the capacity, it
  raises no bounds error and hands exactly one call to \<open>queue.writeBuffer\<close>, at
  \<open>lowerMultipleOf(4, offset)\<close>, with data offset
  \<open>data.byteOffset + dataOffset - offset mod 4\<close> and
  \<open>upperMultipleOf(4, size + offset mod 4)\<close> bytes. The capacity plays no part in the
  call. Whether the write takes place is decided by the hardware call alone: when it
  takes the write the promise is fulfilled, when it throws the promise is rejected with
  what it threw.
\<close>

theorem write_has_no_bounds_check:
  "(let call = WriteBuffer (label this) (lowerMultipleOf 4 offset)
                 (byteOffset data + dataOffset - offset mod 4)
                 (upperMultipleOf 4 (size' + offset mod 4))
    in DataBuffer_set_fromData writeBuffer this \<lparr>segOffset = Some offset, segSize = Some size'\<rparr>
         data dataOffset queue =
       ((case writeBuffer call of None \<Rightarrow> Inr () | Some e \<Rightarrow> Inl e), queue @ [call]))
   \<and> DataBuffer_set_fromData writeBuffer (this\<lparr>bufSize := capacity\<rparr>)
         \<lparr>segOffset = Some offset, segSize = Some size'\<rparr> data dataOffset queue =
       DataBuffer_set_fromData writeBuffer this \<lparr>segOffset = Some offset, segSize = Some size'\<rparr>
         data dataOffset queue"
  by (simp add: DataBuffer_set_fromData_def Let_def lowerMultipleOf_correction orElse_def
      split: option.splits)

text \<open>
  A write of 4 bytes at offset 12 of a buffer of 12 bytes, from the start of 4 bytes of
  data, against a queue that takes it; and a write of 7 bytes at offset 10, whose data
  offset is -2, against a queue that refuses it.
\<close>

theorem write_has_no_bounds_check_witness:
  "DataBuffer_set_fromData (\<lambda>c. None) \<lparr>label = ''b'', bufSize = 12\<rparr>
      \<lparr>segOffset = Some 12, segSize = Some 4\<rparr> \<lparr>byteOffset = 0, byteLength = 4\<rparr> 0 [] =
     (Inr (), [WriteBuffer ''b'' 12 0 4])
   \<and> DataBuffer_set_fromData (\<lambda>c. Some (Error ''OperationError'')) \<lparr>label = ''b'', bufSize = 12\<rparr>
      \<lparr>segOffset = Some 10, segSize = Some 7\<rparr> \<lparr>byteOffset = 0, byteLength = 8\<rparr> 0 [] =
     (Inl (Error ''OperationError''), [WriteBuffer ''b'' 8 (- 2) 12])"
  using write_has_no_bounds_check [where this = "\<lparr>label = ''b'', bufSize = 12\<rparr>"
      and offset = 12 and size' = 4 and data = "\<lparr>byteOffset = 0, byteLength = 4\<rparr>"
      and dataOffset = 0 and writeBuffer = "\<lambda>c. None" and queue = "[]" and capacity = 12]
    write_has_no_bounds_check [where this = "\<lparr>label = ''b'', bufSize = 12\<rparr>"
      and offset = 10 and size' = 7 and data = "\<lparr>byteOffset = 0, byteLength = 8\<rparr>"
      and dataOffset = 0 and writeBuffer = "\<lambda>c. Some (Error ''OperationError'')"
      and queue = "[]" and capacity = 12]
  by (simp add: lowerMultipleOf_def upperMultipleOf_def Let_def)

text \<open>
  The claim as stated fails: a write of 8 bytes at offset 8 into a buffer of 12 bytes
  raises nothing and reaches the queue.
\<close>

theorem out_of_bounds_write_is_issued:
  "12 < (8::int) + 8 \<and>
   DataBuffer_set \<lparr>label = ''b'', bufSize = 12\<rparr> \<lparr>segOffset = Some 8, segSize = Some 8\<rparr>
      \<lparr>byteOffset = 0, byteLength = 8\<rparr> 0 [] = (Inr (), [WriteBuffer ''b'' 8 0 8])"
  by (simp add: DataBuffer_set_def lowerMultipleOf_def upperMultipleOf_def orElse_def)

subsection \<open>C4: the alignment of a mapped region\<close>




subsection \<open>C5: copies between buffers\<close>

text \<open>
  Claim C5. A copy whose source and destination offsets differ modulo 4 throws
  "Copying between unaligned buffers is not possible!" and enqueues nothing. A copy whose
  offsets agree modulo 4 enqueues one copy command, at both offsets rounded down to a
  multiple of 4, with size \<open>upperMultipleOf(4, size + correction)\<close>, where \<open>size\<close> is the
  size the caller gave and, when none was given, the smaller of what remains of the two
  buffers after the offsets.
\<close>

theorem copy_alignment:
  "(srcOffset mod 4 \<noteq> dstOffset mod 4 \<longrightarrow>
      copy segmentSize srcBuffer srcOffset dstBuffer dstOffset queue =
        (Inl (Error ''Copying between unaligned buffers is not possible!''), queue))
   \<and> (srcOffset mod 4 = dstOffset mod 4 \<longrightarrow>
      copy (Some n) srcBuffer srcOffset dstBuffer dstOffset queue =
        (Inr (), queue @ [CopyBufferToBuffer (label srcBuffer) (lowerMultipleOf 4 srcOffset)
            (label dstBuffer) (lowerMultipleOf 4 dstOffset)
            (upperMultipleOf 4 (n + srcOffset mod 4))])
    \<and> copy None srcBuffer srcOffset dstBuffer dstOffset queue =
        (Inr (), queue @ [CopyBufferToBuffer (label srcBuffer) (lowerMultipleOf 4 srcOffset)
            (label dstBuffer) (lowerMultipleOf 4 dstOffset)
            (upperMultipleOf 4
               (min (bufSize srcBuffer - srcOffset) (bufSize dstBuffer - dstOffset)
                + srcOffset mod 4))]))"
  by (simp add: copy_def Let_def lowerMultipleOf_correction orElse_def)

text \<open>
  The scenario of the specification, offsets 1 and 2; a copy of 2 bytes between offsets
  4 and 8, which enqueues 4 bytes, where the copy without a size enqueues the 8 bytes
  that remain of the destination; and a copy of 6 bytes between offsets 5 and 9.
\<close>

theorem copy_alignment_witness:
  "copy None \<lparr>label = ''A'', bufSize = 16\<rparr> 1 \<lparr>label = ''B'', bufSize = 16\<rparr> 2 [] =
      (Inl (Error ''Copying between unaligned buffers is not possible!''), [])
   \<and> copy (Some 2) \<lparr>label = ''A'', bufSize = 16\<rparr> 4 \<lparr>label = ''B'', bufSize = 16\<rparr> 8 [] =
      (Inr (), [CopyBufferToBuffer ''A'' 4 ''B'' 8 4])
   \<and> copy None \<lparr>label = ''A'', bufSize = 16\<rparr> 4 \<lparr>label = ''B'', bufSize = 16\<rparr> 8 [] =
      (Inr (), [CopyBufferToBuffer ''A'' 4 ''B'' 8 8])
   \<and> copy (Some 6) \<lparr>label = ''A'', bufSize = 16\<rparr> 5 \<lparr>label = ''B'', bufSize = 16\<rparr> 9 [] =
      (Inr (), [CopyBufferToBuffer ''A'' 4 ''B'' 8 8])"
  using copy_alignment [where srcOffset = 1 and dstOffset = 2 and segmentSize = None
      and srcBuffer = "\<lparr>label = ''A'', bufSize = 16\<rparr>"
      and dstBuffer = "\<lparr>label = ''B'', bufSize = 16\<rparr>" and queue = "[]"]
    copy_alignment [where srcOffset = 4 and dstOffset = 8 and n = 2
      and srcBuffer = "\<lparr>label = ''A'', bufSize = 16\<rparr>"
      and dstBuffer = "\<lparr>label = ''B'', bufSize = 16\<rparr>" and queue = "[]"]
    copy_alignment [where srcOffset = 5 and dstOffset = 9 and n = 6
      and srcBuffer = "\<lparr>label = ''A'', bufSize = 16\<rparr>"
      and dstBuffer = "\<lparr>label = ''B'', bufSize = 16\<rparr>" and queue = "[]"]
  by (simp add: lowerMultipleOf_def upperMultipleOf_def)

subsection \<open>C6: at most one pending flush\<close>

text \<open>
  Claim C6. In every state a SyncBuffer reaches from its creation through \<open>set\<close> calls
  (on elements whose range has its start at or before its end) and timer callbacks, at
  most one flush is pending. A \<open>set\<close> schedules a flush exactly when the dirty range was
  in its empty encoding, start greater than end, before the call. While a flush is
  pending a \<open>set\<close> schedules nothing, and the flush, when it fires, writes the dirty range
  as it is at that moment and resets it to the empty encoding \<open>(byteLength, 0)\<close>, with no
  flush pending.
\<close>

theorem at_most_one_flush_scheduled:
  assumes "\<forall>e\<in>set es. wellFormed e"
    and "run (SyncBuffer_create lbl descriptor queue0) es = (this, queue)"
  shows "flushes this \<le> 1
    \<and> flushes (dirty r this) =
        flushes this + (if fst (dirtyRange this) > snd (dirtyRange this) then 1 else 0)
    \<and> (flushes this = 1 \<longrightarrow>
          flushes (dirty r this) = 1
        \<and> step (this, queue) Timer =
            (this\<lparr>dirtyRange := (byteLength (cpuBuffer this), 0), flushes := 0\<rparr>,
             snd (DataBuffer_set (gpuBuffer this)
                    \<lparr>segOffset = Some (fst (dirtyRange this)),
                     segSize = Some (snd (dirtyRange this) - fst (dirtyRange this))\<rparr>
                    (cpuBuffer this) (fst (dirtyRange this)) queue)))"
proof -
  have inv: "flushes this \<le> 1"
      "flushes this = 1 \<longrightarrow> fst (dirtyRange this) \<le> snd (dirtyRange this)"
    using run_invariant [OF assms(1), of lbl descriptor queue0] assms(2) by simp_all
  have "flushes (dirty r this) =
        flushes this + (if fst (dirtyRange this) > snd (dirtyRange this) then 1 else 0)"
    by (simp add: dirty_simps)
  moreover have "flushes this = 1 \<longrightarrow> flushes (dirty r this) = 1"
    using inv(2) by (auto simp: dirty_simps)
  moreover have "flushes this = 1 \<longrightarrow> step (this, queue) Timer =
            (this\<lparr>dirtyRange := (byteLength (cpuBuffer this), 0), flushes := 0\<rparr>,
             snd (DataBuffer_set (gpuBuffer this)
                    \<lparr>segOffset = Some (fst (dirtyRange this)),
                     segSize = Some (snd (dirtyRange this) - fst (dirtyRange this))\<rparr>
                    (cpuBuffer this) (fst (dirtyRange this)) queue))"
    by (simp add: clean_def Let_def)
  ultimately show ?thesis
    using inv(1) by blast
qed

theorem at_most_one_flush_witness:
  "flushes (fst (run (SyncBuffer_create ''b'' (OfSize 10) []) [Set (3, 5)])) = 1
   \<and> flushes (dirty (7, 9) (fst (run (SyncBuffer_create ''b'' (OfSize 10) []) [Set (3, 5)]))) = 1
   \<and> step (run (SyncBuffer_create ''b'' (OfSize 10) []) [Set (3, 5)]) Timer =
       (\<lparr>gpuBuffer = \<lparr>label = ''b'', bufSize = 12\<rparr>, cpuBuffer = \<lparr>byteOffset = 0, byteLength = 12\<rparr>,
         dirtyRange = (12, 0), flushes = 0\<rparr>,
        [CreateBuffer ''b'' 12, WriteBuffer ''b'' 0 0 8])"
proof -
  let ?sb = "\<lparr>gpuBuffer = \<lparr>label = ''b'', bufSize = 12\<rparr>,
      cpuBuffer = \<lparr>byteOffset = 0, byteLength = 12\<rparr>, dirtyRange = (3, 5), flushes = 1\<rparr>"
  have h1: "\<forall>e\<in>set [Set (3, 5)]. wellFormed e"
    by (simp add: wellFormed_def)
  have h2: "run (SyncBuffer_create ''b'' (OfSize 10) []) [Set (3, 5)] = (?sb, [CreateBuffer ''b'' 12])"
    by (simp add: SyncBuffer_create_def newDataBuffer_def newBlankBuffer_def upperMultipleOf_def
        run_def dirty_def)
  show ?thesis
    using at_most_one_flush_scheduled [OF h1 h2, of "(7, 9)"] h2
    by (simp add: DataBuffer_set_def orElse_def lowerMultipleOf_def upperMultipleOf_def)
qed

subsection \<open>C7: reading a DataBuffer back through a staging buffer\<close>

text \<open>
  Claim C7. Reading a buffer back with \<open>DataBuffer.get().asData()\<close> is to yield the bytes
  written, and the staging ReadBuffer is to be destroyed on every exit path without
  breaking the data returned. \<open>asData\<close> returns the promise of the staging buffer's
  \<open>asData\<close> without awaiting it, so its \<open>finally\<close> block destroys the staging buffer right
  after the logical map request was registered and before the timer callback that issues
  the physical map has run. The evaluation below is a full read of a buffer of 12 bytes:
  the calls made by \<open>asData\<close> end with the destruction of the staging buffer, one mapping
  is still scheduled, and the timer callback then maps the destroyed buffer.
\<close>

theorem staging_buffer_destroyed_before_map:
  "DataBuffer_get_asData \<lparr>label = ''b'', bufSize = 12\<rparr> \<lparr>segOffset = None, segSize = None\<rparr>
      None 0 [] =
     (Inr \<lparr>wrapped = \<lparr>label = ''b-temp'', bufSize = 12\<rparr>,
           mapper = \<lparr>buffer = \<lparr>label = ''b-temp'', bufSize = 12\<rparr>, mapRange = (0, 12),
                     scheduled = 1, unmaps = 0\<rparr>\<rparr>,
      [CreateBuffer ''b-temp'' 12, CopyBufferToBuffer ''b'' 0 ''b-temp'' 0 12,
       DestroyBuffer ''b-temp''])
   \<and> snd (mappingTimer \<lparr>buffer = \<lparr>label = ''b-temp'', bufSize = 12\<rparr>, mapRange = (0, 12),
                          scheduled = 1, unmaps = 0\<rparr>
            [CreateBuffer ''b-temp'' 12, CopyBufferToBuffer ''b'' 0 ''b-temp'' 0 12,
             DestroyBuffer ''b-temp'']) =
     [CreateBuffer ''b-temp'' 12, CopyBufferToBuffer ''b'' 0 ''b-temp'' 0 12,
      DestroyBuffer ''b-temp'', MapAsync ''b-temp'' 0 12]"
  by (simp add: DataBuffer_get_asData_def newReadBuffer_def newBlankBuffer_def copy_def destroy_def
      ReadBuffer_get_asData_def newBufferMapper_def mapAsync_def request_def scheduleMapping_def
      mappingTimer_def orElse_def lowerMultipleOf_def upperMultipleOf_def)

subsection \<open>C8: operations after destroy\<close>

text \<open>
  Claim C8, as amended. \<open>destroy()\<close> only forwards to the hardware buffer's \<open>destroy\<close>; the
  component records nothing and no operation checks for it. After \<open>destroy()\<close> a write
  from the host still raises nothing and issues its one queue write, a copy from or to
  the buffer has the outcome and the calls it has without the destruction, so has a read
  through a staging buffer, and a logical \<open>mapAsync\<close> on a mapper of the buffer still
  schedules and issues its physical map. Failing on a destroyed buffer is left to the
  hardware calls.
\<close>

theorem destroy_is_not_checked:
  assumes "0 \<le> bufSize this"
  shows "DataBuffer_set this seg data off (destroy this queue) =
     (Inr (), queue @ [DestroyBuffer (label this)] @ snd (DataBuffer_set this seg data off []))
   \<and> length (snd (DataBuffer_set this seg data off [])) = 1
   \<and> copy n this so dst d (destroy this queue) =
     (fst (copy n this so dst d []), queue @ [DestroyBuffer (label this)] @ snd (copy n this so dst d []))
   \<and> copy n src so this d (destroy this queue) =
     (fst (copy n src so this d []), queue @ [DestroyBuffer (label this)] @ snd (copy n src so this d []))
   \<and> DataBuffer_get_asData this seg dv off (destroy this queue) =
     (fst (DataBuffer_get_asData this seg dv off []),
      queue @ [DestroyBuffer (label this)] @ snd (DataBuffer_get_asData this seg dv off []))
   \<and> snd (mappingTimer (mapAsync offset size' (newBufferMapper this)) (destroy this queue)) =
     queue @ [DestroyBuffer (label this),
              MapAsync (label this) (min (bufSize this) (lowerMultipleOf 8 offset))
                (max 0 (lowerMultipleOf 8 offset
                          + upperMultipleOf 4 (size' + (offset - lowerMultipleOf 8 offset)))
                   - min (bufSize this) (lowerMultipleOf 8 offset))]"
proof -
  have 1: "DataBuffer_set this seg data off (destroy this queue) =
     (Inr (), queue @ [DestroyBuffer (label this)] @ snd (DataBuffer_set this seg data off []))"
    by (subst DataBuffer_set_queue) (simp add: destroy_def)
  have 2: "length (snd (DataBuffer_set this seg data off [])) = 1"
    by (simp add: DataBuffer_set_def Let_def)
  have 3: "copy n this so dst d (destroy this queue) =
     (fst (copy n this so dst d []), queue @ [DestroyBuffer (label this)] @ snd (copy n this so dst d []))"
    by (subst copy_queue) (simp add: destroy_def)
  have 4: "copy n src so this d (destroy this queue) =
     (fst (copy n src so this d []), queue @ [DestroyBuffer (label this)] @ snd (copy n src so this d []))"
    by (subst copy_queue) (simp add: destroy_def)
  have 5: "DataBuffer_get_asData this seg dv off (destroy this queue) =
     (fst (DataBuffer_get_asData this seg dv off []),
      queue @ [DestroyBuffer (label this)] @ snd (DataBuffer_get_asData this seg dv off []))"
    by (subst DataBuffer_get_asData_queue) (simp add: destroy_def)
  have 6: "snd (mappingTimer (mapAsync offset size' (newBufferMapper this)) (destroy this queue)) =
     queue @ [DestroyBuffer (label this),
              MapAsync (label this) (min (bufSize this) (lowerMultipleOf 8 offset))
                (max 0 (lowerMultipleOf 8 offset
                          + upperMultipleOf 4 (size' + (offset - lowerMultipleOf 8 offset)))
                   - min (bufSize this) (lowerMultipleOf 8 offset))]"
    by (subst mapAsync_fresh_timer [OF assms]) (simp add: destroy_def)
  from 1 2 3 4 5 6 show ?thesis by blast
qed

theorem destroy_is_not_checked_witness:
  "DataBuffer_set \<lparr>label = ''b'', bufSize = 12\<rparr> \<lparr>segOffset = Some 4, segSize = Some 4\<rparr>
      \<lparr>byteOffset = 0, byteLength = 4\<rparr> 0 (destroy \<lparr>label = ''b'', bufSize = 12\<rparr> []) =
     (Inr (), [DestroyBuffer ''b'', WriteBuffer ''b'' 4 0 4])
   \<and> copy (Some 4) \<lparr>label = ''b'', bufSize = 12\<rparr> 0 \<lparr>label = ''c'', bufSize = 12\<rparr> 0
       (destroy \<lparr>label = ''b'', bufSize = 12\<rparr> []) =
     (Inr (), [DestroyBuffer ''b'', CopyBufferToBuffer ''b'' 0 ''c'' 0 4])
   \<and> snd (mappingTimer (mapAsync 0 4 (newBufferMapper \<lparr>label = ''b'', bufSize = 12\<rparr>))
            (destroy \<lparr>label = ''b'', bufSize = 12\<rparr> [])) =
     [DestroyBuffer ''b'', MapAsync ''b'' 0 4]"
  using destroy_is_not_checked [of "\<lparr>label = ''b'', bufSize = 12\<rparr>"
      "\<lparr>segOffset = Some 4, segSize = Some 4\<rparr>" "\<lparr>byteOffset = 0, byteLength = 4\<rparr>" 0 "[]"
      "Some 4" 0 "\<lparr>label = ''c'', bufSize = 12\<rparr>" 0 "\<lparr>label = ''c'', bufSize = 12\<rparr>" None 0 4]
  by (simp add: DataBuffer_set_def copy_def destroy_def orElse_def lowerMultipleOf_def
      upperMultipleOf_def)

text \<open>
  The claim as stated fails: a write from the host after \<open>destroy()\<close> raises nothing and
  reaches the queue.
\<close>

theorem write_after_destroy_is_issued:
  "DataBuffer_set \<lparr>label = ''b'', bufSize = 12\<rparr> \<lparr>segOffset = Some 0, segSize = Some 4\<rparr>
      \<lparr>byteOffset = 0, byteLength = 4\<rparr> 0 (destroy \<lparr>label = ''b'', bufSize = 12\<rparr> []) =
     (Inr (), [DestroyBuffer ''b'', WriteBuffer ''b'' 0 0 4])"
  by (simp add: DataBuffer_set_def destroy_def lowerMultipleOf_def upperMultipleOf_def orElse_def)

subsection \<open>C9: the alignment correction of the write path\<close>

text \<open>
  Claim C9. For every offset and size (in particular those with \<open>offset + size\<close> within
  the capacity), the queue write issued by \<open>DataBuffer.set({offset, size}).fromData\<close> is
  at \<open>validOffset = floor(offset / 4) * 4\<close> with
  \<open>validSize = ceil((size + offset - validOffset) / 4) * 4\<close> bytes; \<open>validSize\<close> is a
  multiple of 4, and the region \<open>[validOffset, validOffset + validSize)\<close> contains the
  requested region \<open>[offset, offset + size)\<close>.
\<close>

theorem write_alignment_contains_request:
  "DataBuffer_set this \<lparr>segOffset = Some offset, segSize = Some size'\<rparr> data dataOffset queue =
     (Inr (), queue @ [WriteBuffer (label this) (lowerMultipleOf 4 offset)
                         (byteOffset data + dataOffset - (offset - lowerMultipleOf 4 offset))
                         (upperMultipleOf 4 (size' + (offset - lowerMultipleOf 4 offset)))])
   \<and> lowerMultipleOf 4 offset = \<lfloor>real_of_int offset / 4\<rfloor> * 4
   \<and> upperMultipleOf 4 (size' + (offset - lowerMultipleOf 4 offset)) =
       \<lceil>real_of_int (size' + offset - lowerMultipleOf 4 offset) / 4\<rceil> * 4
   \<and> upperMultipleOf 4 (size' + (offset - lowerMultipleOf 4 offset)) mod 4 = 0
   \<and> lowerMultipleOf 4 offset \<le> offset
   \<and> offset + size' \<le> lowerMultipleOf 4 offset
                         + upperMultipleOf 4 (size' + (offset - lowerMultipleOf 4 offset))"
proof -
  have a: "lowerMultipleOf 4 offset = \<lfloor>real_of_int offset / 4\<rfloor> * 4"
    using lowerMultipleOf_floor [of 4 offset] by simp
  have b: "upperMultipleOf 4 (size' + (offset - lowerMultipleOf 4 offset)) =
       \<lceil>real_of_int (size' + offset - lowerMultipleOf 4 offset) / 4\<rceil> * 4"
    using upperMultipleOf_ceiling [of 4 "size' + (offset - lowerMultipleOf 4 offset)"]
    by (simp add: algebra_simps)
  have c: "upperMultipleOf 4 (size' + (offset - lowerMultipleOf 4 offset)) mod 4 = 0"
    using upperMultipleOf_dvd [of 4] by (simp add: mod_eq_0_iff_dvd)
  have d: "lowerMultipleOf 4 offset \<le> offset"
    by (simp add: lowerMultipleOf_le)
  have e: "size' + (offset - lowerMultipleOf 4 offset)
             \<le> upperMultipleOf 4 (size' + (offset - lowerMultipleOf 4 offset))"
    by (rule upperMultipleOf_ge) simp
  have f: "DataBuffer_set this \<lparr>segOffset = Some offset, segSize = Some size'\<rparr> data dataOffset queue =
     (Inr (), queue @ [WriteBuffer (label this) (lowerMultipleOf 4 offset)
                         (byteOffset data + dataOffset - (offset - lowerMultipleOf 4 offset))
                         (upperMultipleOf 4 (size' + (offset - lowerMultipleOf 4 offset)))])"
    by (simp add: DataBuffer_set_def orElse_def Let_def)
  from a b c d e f show ?thesis by simp
qed

theorem write_alignment_witness:
  "DataBuffer_set \<lparr>label = ''b'', bufSize = 12\<rparr> \<lparr>segOffset = Some 3, segSize = Some 6\<rparr>
      \<lparr>byteOffset = 0, byteLength = 12\<rparr> 3 [] = (Inr (), [WriteBuffer ''b'' 0 0 12])
   \<and> lowerMultipleOf 4 3 = 0 \<and> upperMultipleOf 4 (6 + 3) = 12"
  using write_alignment_contains_request [of "\<lparr>label = ''b'', bufSize = 12\<rparr>" 3 6
      "\<lparr>byteOffset = 0, byteLength = 12\<rparr>" 3 "[]"]
  by (simp add: lowerMultipleOf_def upperMultipleOf_def)

subsection \<open>C10: a negative data offset in the write path\<close>

text \<open>
  Claim C10. Whenever the source window of a write from the host starts fewer than
  \<open>bufferOffset mod 4\<close> bytes after the start of the host ArrayBuffer, the data offset
  passed to the queue write, \<open>data.byteOffset + dataOffset - offsetCorrection\<close>, is
  negative; \<open>data.byteOffset = 0\<close>, \<open>dataOffset = 0\<close>, \<open>bufferOffset = 3\<close> is such a call.
\<close>

theorem negative_data_offset:
  assumes "byteOffset data + dataOffset < bufferOffset mod 4"
  shows "DataBuffer_set this \<lparr>segOffset = Some bufferOffset, segSize = sz\<rparr> data dataOffset queue =
     (Inr (), queue @ [WriteBuffer (label this) (lowerMultipleOf 4 bufferOffset)
          (byteOffset data + dataOffset - bufferOffset mod 4)
          (upperMultipleOf 4
             (orElse sz (min (bufSize this - bufferOffset) (byteLength data - dataOffset))
              + bufferOffset mod 4))])
   \<and> byteOffset data + dataOffset - bufferOffset mod 4 < 0"
  using assms
  by (simp add: DataBuffer_set_def Let_def lowerMultipleOf_correction orElse_def)

theorem negative_data_offset_witness:
  "DataBuffer_set \<lparr>label = ''b'', bufSize = 12\<rparr> \<lparr>segOffset = Some 3, segSize = Some 2\<rparr>
      \<lparr>byteOffset = 0, byteLength = 8\<rparr> 0 [] = (Inr (), [WriteBuffer ''b'' 0 (- 3) 8])"
  using negative_data_offset [of "\<lparr>byteOffset = 0, byteLength = 8\<rparr>" 0 3
      "\<lparr>label = ''b'', bufSize = 12\<rparr>" "Some 2" "[]"]
  by (simp add: lowerMultipleOf_def upperMultipleOf_def orElse_def)

end
